theory Spec2Isabelle
  imports Main
begin

section \<open>The certificate backend of app.py\<close>

text \<open>
  The program is a Flask application with three JSON endpoints over one SQLite table.
  Each handler is embedded as a function from the table's contents and the request to
  the table's new contents and what the client receives.

  A request body is the Python value \<^verbatim>\<open>request.get_json()\<close> returns, which can be any JSON
  value: the source never tests the type of the body, of the value under
  \<^verbatim>\<open>certificates\<close>, of an item or of a field, so every such value is an input of the
  embedding, and a Python operation that raises on it is a branch that ends in the
  escaped exception. A request whose body is not JSON at all never reaches the code after
  \<^verbatim>\<open>get_json()\<close> (Flask answers it itself) and is no input here. Requests run one at a
  time: the races of the spec's section 5 are outside the embedding.
\<close>

subsection \<open>Data model\<close>

text \<open>
  A JSON value as the Python object it is parsed to: \<^verbatim>\<open>None\<close>, a bool, an int, a float,
  a str, a list, or a dict. A dict is an association list read with \<^const>\<open>map_of\<close>. Of a
  float the program can observe two things only, and \<open>JFloat z t\<close> is the float given by
  them: whether it is zero (\<open>z\<close>, for \<^verbatim>\<open>not v\<close>), and the text SQLite stores for it in a
  column of TEXT affinity (\<open>t\<close>; \<open>None\<close> for NaN, which SQLite stores as NULL).
\<close>

datatype json =
    JNull
  | JBool bool
  | JInt int
  | JFloat bool "string option"
  | JStr string
  | JArr "json list"
  | JObj "(string \<times> json) list"

text \<open>
  The class \<^verbatim>\<open>Certificate\<close> (lines 32-37). An object built by the constructor holds the
  Python values it was given, so its fields are JSON values; a row loaded from the table
  holds text in all three columns. The \<^verbatim>\<open>id\<close> column is the primary key the table assigns
  on insert, so a stored row is the pair of an id and the three texts. SQLite does not
  enforce the declared lengths of \<^verbatim>\<open>String(100)\<close> and \<^verbatim>\<open>String(10)\<close>.
\<close>

record 'v Certificate =
  name :: 'v
  code :: 'v
  image_data :: 'v

type_synonym row = "nat \<times> string Certificate"

text \<open>The table \<^verbatim>\<open>certificate\<close>, in insertion (rowid) order.\<close>

type_synonym store = "row list"

text \<open>
  The exceptions a handler can let escape. \<open>KeyError\<close> and \<open>TypeError\<close> come from the
  dict and container operations on the request; \<open>IntegrityError\<close> is the table refusing
  a row (\<^verbatim>\<open>unique=True\<close> and \<^verbatim>\<open>nullable=False\<close>, lines 34-37); \<open>InterfaceError\<close> and
  \<open>OverflowError\<close> are the SQLite driver refusing to bind a list, a dict or an integer
  outside 64 bits as a statement parameter. Flask answers an escaped exception with
  status 500.
\<close>

datatype py_error = KeyError | TypeError | IntegrityError | InterfaceError | OverflowError

text \<open>
  The bodies passed to \<^verbatim>\<open>jsonify\<close>: \<^verbatim>\<open>{'error': s}\<close>, \<^verbatim>\<open>{'message': s}\<close>,
  \<^verbatim>\<open>{'message': s, 'id': n}\<close>, the message
  \<^verbatim>\<open>f'Successfully added {n} certificates.'\<close> (kept as its number), and the three public
  fields of a certificate.
\<close>

datatype json_resp =
    JError string
  | JMessage string
  | JMessageId string nat
  | JAdded nat
  | JCert string string string

datatype outcome = Response json_resp nat | Uncaught py_error

subsection \<open>Python operations on the request\<close>

text \<open>\<^verbatim>\<open>bool(v)\<close>, as \<^verbatim>\<open>not v\<close> uses it: \<^verbatim>\<open>None\<close>, \<^verbatim>\<open>False\<close>, 0 and the empty containers are falsy.\<close>

fun truthy :: "json \<Rightarrow> bool" where
  "truthy JNull = False"
| "truthy (JBool b) = b"
| "truthy (JInt i) = (i \<noteq> 0)"
| "truthy (JFloat z t) = (\<not> z)"
| "truthy (JStr s) = (s \<noteq> [])"
| "truthy (JArr xs) = (xs \<noteq> [])"
| "truthy (JObj kvs) = (kvs \<noteq> [])"

text \<open>\<^verbatim>\<open>k in s\<close> on two strings: \<open>k\<close> occurs in \<open>s\<close> as a contiguous block.\<close>

fun py_substr :: "string \<Rightarrow> string \<Rightarrow> bool" where
  "py_substr k [] = (k = [])"
| "py_substr k (c # s) = (take (length k) (c # s) = k \<or> py_substr k s)"

text \<open>
  \<^verbatim>\<open>k in v\<close> for a string \<open>k\<close>: a key of a dict, an element of a list, a substring of a
  string; \<^verbatim>\<open>None\<close>, a bool and a number are not containers and raise.
\<close>

fun py_in :: "string \<Rightarrow> json \<Rightarrow> py_error + bool" where
  "py_in k (JObj kvs) = Inr (k \<in> set (map fst kvs))"
| "py_in k (JArr xs) = Inr (JStr k \<in> set xs)"
| "py_in k (JStr s) = Inr (py_substr k s)"
| "py_in k JNull = Inl TypeError"
| "py_in k (JBool b) = Inl TypeError"
| "py_in k (JInt i) = Inl TypeError"
| "py_in k (JFloat z t) = Inl TypeError"

text \<open>\<^verbatim>\<open>v[k]\<close> for a string \<open>k\<close>: only a dict can be subscripted by a string.\<close>

fun getitem :: "json \<Rightarrow> string \<Rightarrow> py_error + json" where
  "getitem (JObj kvs) k = (case map_of kvs k of None \<Rightarrow> Inl KeyError | Some v \<Rightarrow> Inr v)"
| "getitem JNull k = Inl TypeError"
| "getitem (JBool b) k = Inl TypeError"
| "getitem (JInt i) k = Inl TypeError"
| "getitem (JFloat z t) k = Inl TypeError"
| "getitem (JStr s) k = Inl TypeError"
| "getitem (JArr xs) k = Inl TypeError"

text \<open>The keys of a dict, each once, in the order of their first binding.\<close>

fun dict_keys :: "(string \<times> 'v) list \<Rightarrow> string list" where
  "dict_keys [] = []"
| "dict_keys ((k, v) # kvs) = k # filter (\<lambda>k'. k' \<noteq> k) (dict_keys kvs)"

text \<open>
  What \<^verbatim>\<open>for x in v\<close> runs through: the elements of a list, the keys of a dict, the
  one-character strings of a string; anything else raises.
\<close>

fun py_iter :: "json \<Rightarrow> py_error + json list" where
  "py_iter (JArr xs) = Inr xs"
| "py_iter (JObj kvs) = Inr (map JStr (dict_keys kvs))"
| "py_iter (JStr s) = Inr (map (\<lambda>c. JStr [c]) s)"
| "py_iter JNull = Inl TypeError"
| "py_iter (JBool b) = Inl TypeError"
| "py_iter (JInt i) = Inl TypeError"
| "py_iter (JFloat z t) = Inl TypeError"

text \<open>
  \<^verbatim>\<open>all(k in d for k in ['name', 'code', 'image_data'])\<close>: the three tests in order,
  stopping at the first that is false or raises.
\<close>

definition all_fields :: "json \<Rightarrow> py_error + bool" where
  "all_fields d =
     (case py_in ''name'' d of Inl e \<Rightarrow> Inl e | Inr b1 \<Rightarrow>
      if \<not> b1 then Inr False else
      case py_in ''code'' d of Inl e \<Rightarrow> Inl e | Inr b2 \<Rightarrow>
      if \<not> b2 then Inr False else
      case py_in ''image_data'' d of Inl e \<Rightarrow> Inl e | Inr b3 \<Rightarrow> Inr b3)"

text \<open>
  The constructor call of lines 67-71 and 94-98: three subscripts, in the source's order;
  the object keeps the values as they are.
\<close>

definition new_Certificate :: "json \<Rightarrow> py_error + json Certificate" where
  "new_Certificate d =
     (case getitem d ''name'' of Inl e \<Rightarrow> Inl e | Inr n \<Rightarrow>
      case getitem d ''code'' of Inl e \<Rightarrow> Inl e | Inr c \<Rightarrow>
      case getitem d ''image_data'' of Inl e \<Rightarrow> Inl e | Inr i \<Rightarrow>
        Inr \<lparr>name = n, code = c, image_data = i\<rparr>)"

subsection \<open>The table\<close>

text \<open>The decimal text of an integer, as SQLite writes it.\<close>

definition digit :: "nat \<Rightarrow> char" where
  "digit n = ''0123456789'' ! n"

function dec_nat :: "nat \<Rightarrow> string" where
  "dec_nat n = (if n < 10 then [digit n] else dec_nat (n div 10) @ [digit (n mod 10)])"
  by pat_completeness auto
termination
  by (relation "measure (\<lambda>n. n)") auto

declare dec_nat.simps [simp del]

definition str_int :: "int \<Rightarrow> string" where
  "str_int i = (if i < 0 then CHR ''-'' # dec_nat (nat (- i)) else dec_nat (nat i))"

text \<open>
  A Python value bound as a parameter of a statement on a \<^verbatim>\<open>String\<close> or \<^verbatim>\<open>Text\<close> column.
  \<^verbatim>\<open>None\<close> is SQL NULL (the result \<open>None\<close>). The columns have TEXT affinity, so an
  integer is stored and compared as its decimal text, a float as the text SQLite gives
  it, and a bool, which the driver binds as the integer 1 or 0, as \<open>1\<close> or \<open>0\<close>. The
  driver refuses a list or a dict, and an integer that does not fit 64 bits.
\<close>

fun bind_param :: "json \<Rightarrow> py_error + string option" where
  "bind_param JNull = Inr None"
| "bind_param (JStr s) = Inr (Some s)"
| "bind_param (JBool b) = Inr (Some (if b then ''1'' else ''0''))"
| "bind_param (JInt i) =
     (if - (2 ^ 63) \<le> i \<and> i < 2 ^ 63 then Inr (Some (str_int i)) else Inl OverflowError)"
| "bind_param (JFloat z t) = Inr t"
| "bind_param (JArr xs) = Inl InterfaceError"
| "bind_param (JObj kvs) = Inl InterfaceError"

definition codes :: "store \<Rightarrow> string list" where
  "codes db = map (\<lambda>r. code (snd r)) db"

text \<open>
  \<^verbatim>\<open>Certificate.query.filter_by(code=c).first()\<close>: the first row whose code is the text of
  \<open>c\<close>. For \<^verbatim>\<open>None\<close> the query is \<^verbatim>\<open>code IS NULL\<close>, which no row of a NOT NULL column
  satisfies.
\<close>

definition filter_by_code_first :: "store \<Rightarrow> json \<Rightarrow> py_error + row option" where
  "filter_by_code_first db c =
     (case bind_param c of
        Inl e \<Rightarrow> Inl e
      | Inr None \<Rightarrow> Inr None
      | Inr (Some t) \<Rightarrow> Inr (find (\<lambda>r. code (snd r) = t) db))"

text \<open>
  An integer primary key of SQLite: one more than the largest id in the table, 1 in an
  empty table.
\<close>

definition next_id :: "store \<Rightarrow> nat" where
  "next_id db = Suc (fold max (map fst db) 0)"

text \<open>
  One INSERT of an object. The three values are bound in the order of the columns; then
  the table refuses a NULL in any of the three columns (\<^verbatim>\<open>nullable=False\<close>) and a code it
  already holds (\<^verbatim>\<open>unique=True\<close>, line 35).
\<close>

definition insert_row :: "store \<Rightarrow> json Certificate \<Rightarrow> py_error + store" where
  "insert_row db c =
     (case bind_param (name c) of Inl e \<Rightarrow> Inl e | Inr n \<Rightarrow>
      case bind_param (code c) of Inl e \<Rightarrow> Inl e | Inr cd \<Rightarrow>
      case bind_param (image_data c) of Inl e \<Rightarrow> Inl e | Inr i \<Rightarrow>
      (case (n, cd, i) of
         (Some n', Some cd', Some i') \<Rightarrow>
           if cd' \<in> set (codes db) then Inl IntegrityError
           else Inr (db @ [(next_id db, \<lparr>name = n', code = cd', image_data = i'\<rparr>)])
       | _ \<Rightarrow> Inl IntegrityError))"

text \<open>
  \<^verbatim>\<open>db.session.add(new_cert); db.session.commit()\<close>: the new table and the row's id, or the
  exception (nothing is committed then).
\<close>

definition session_add_commit :: "store \<Rightarrow> json Certificate \<Rightarrow> py_error + (store \<times> nat)" where
  "session_add_commit db c =
     (case insert_row db c of Inl e \<Rightarrow> Inl e | Inr db' \<Rightarrow> Inr (db', next_id db))"

text \<open>
  The INSERTs of \<^verbatim>\<open>db.session.bulk_save_objects(certs)\<close>, in order, in one transaction.
\<close>

fun insert_rows :: "store \<Rightarrow> json Certificate list \<Rightarrow> py_error + store" where
  "insert_rows db [] = Inr db"
| "insert_rows db (c # cs) =
     (case insert_row db c of Inl e \<Rightarrow> Inl e | Inr db' \<Rightarrow> insert_rows db' cs)"

text \<open>
  \<^verbatim>\<open>db.session.bulk_save_objects(certs); db.session.commit()\<close>. Both calls return \<^verbatim>\<open>None\<close>:
  the caller gets no count from the table. The first refused row raises before the
  commit, and the transaction is rolled back when the request ends, so on an exception
  the caller keeps the table it had.
\<close>

definition bulk_save_commit :: "store \<Rightarrow> json Certificate list \<Rightarrow> py_error + store" where
  "bulk_save_commit db certs = insert_rows db certs"

subsection \<open>The handlers\<close>

text \<open>
  The guard of line 60, \<^verbatim>\<open>not data or not all(...)\<close>: true, false, or the exception the
  membership test raises.
\<close>

definition missing_data :: "json \<Rightarrow> py_error + bool" where
  "missing_data data =
     (if \<not> truthy data then Inr True
      else case all_fields data of Inl e \<Rightarrow> Inl e | Inr b \<Rightarrow> Inr (\<not> b))"

text \<open>POST /api/certificates (lines 54-75).\<close>

definition add_certificate :: "store \<Rightarrow> json \<Rightarrow> store \<times> outcome" where
  "add_certificate db data =
     (case missing_data data of
        Inl e \<Rightarrow> (db, Uncaught e)
      | Inr missing \<Rightarrow>
         if missing then (db, Response (JError ''Missing data'') 400)
         else (case getitem data ''code'' of
            Inl e \<Rightarrow> (db, Uncaught e)
          | Inr c \<Rightarrow>
             (case filter_by_code_first db c of
                Inl e \<Rightarrow> (db, Uncaught e)
              | Inr found \<Rightarrow>
                 if found \<noteq> None
                 then (db, Response (JError ''Certificate code already exists'') 409)
                 else (case new_Certificate data of
                         Inl e \<Rightarrow> (db, Uncaught e)
                       | Inr new_cert \<Rightarrow>
                          (case session_add_commit db new_cert of
                             Inl e \<Rightarrow> (db, Uncaught e)
                           | Inr (db', new_id) \<Rightarrow>
                              (db', Response (JMessageId ''Certificate created successfully'' new_id) 201))))))"

text \<open>
  The loop of lines 88-99, with \<^verbatim>\<open>certs_to_add\<close> as accumulator. The only duplicate
  check is the query against the table, which no iteration changes.
\<close>

fun bulk_loop :: "store \<Rightarrow> json list \<Rightarrow> json Certificate list \<Rightarrow> py_error + json Certificate list" where
  "bulk_loop db [] certs_to_add = Inr certs_to_add"
| "bulk_loop db (cert_data # rest) certs_to_add =
     (case all_fields cert_data of
        Inl e \<Rightarrow> Inl e
      | Inr present \<Rightarrow>
         if \<not> present then bulk_loop db rest certs_to_add
         else (case getitem cert_data ''code'' of
            Inl e \<Rightarrow> Inl e
          | Inr c \<Rightarrow>
             (case filter_by_code_first db c of
                Inl e \<Rightarrow> Inl e
              | Inr found \<Rightarrow>
                 if found = None
                 then (case new_Certificate cert_data of
                         Inl e \<Rightarrow> Inl e
                       | Inr new_cert \<Rightarrow> bulk_loop db rest (certs_to_add @ [new_cert]))
                 else bulk_loop db rest certs_to_add)))"

text \<open>The guard of line 84, \<^verbatim>\<open>not data or 'certificates' not in data\<close>.\<close>

definition missing_list :: "json \<Rightarrow> py_error + bool" where
  "missing_list data =
     (if \<not> truthy data then Inr True
      else case py_in ''certificates'' data of Inl e \<Rightarrow> Inl e | Inr b \<Rightarrow> Inr (\<not> b))"

text \<open>POST /api/certificates/bulk (lines 78-107).\<close>

definition add_bulk_certificates :: "store \<Rightarrow> json \<Rightarrow> store \<times> outcome" where
  "add_bulk_certificates db data =
     (case missing_list data of
        Inl e \<Rightarrow> (db, Uncaught e)
      | Inr missing \<Rightarrow>
         if missing then (db, Response (JError ''Missing certificate list'') 400)
         else (case getitem data ''certificates'' of
            Inl e \<Rightarrow> (db, Uncaught e)
          | Inr v \<Rightarrow>
             (case py_iter v of
                Inl e \<Rightarrow> (db, Uncaught e)
              | Inr items \<Rightarrow>
                 (case bulk_loop db items [] of
                    Inl e \<Rightarrow> (db, Uncaught e)
                  | Inr certs_to_add \<Rightarrow>
                     if certs_to_add = []
                     then (db, Response (JMessage ''No new certificates to add or data was invalid.'') 200)
                     else (case bulk_save_commit db certs_to_add of
                             Inl e \<Rightarrow> (db, Uncaught e)
                           | Inr db' \<Rightarrow> (db', Response (JAdded (length certs_to_add)) 201))))))"

text \<open>
  GET /api/certificates/<code> (lines 111-124); the code is the string of the URL, and
  \<^verbatim>\<open>jsonify\<close> alone answers 200.
\<close>

definition get_certificate :: "store \<Rightarrow> string \<Rightarrow> store \<times> outcome" where
  "get_certificate db c =
     (case filter_by_code_first db (JStr c) of
        Inl e \<Rightarrow> (db, Uncaught e)
      | Inr (Some cert) \<Rightarrow>
          (db, Response (JCert (name (snd cert)) (code (snd cert)) (image_data (snd cert))) 200)
      | Inr None \<Rightarrow> (db, Response (JError ''Certificate not found'') 404))"

text \<open>
  A JSON object all of whose values are strings: the payload the handlers' docstrings
  describe.
\<close>

definition is_JStr :: "json \<Rightarrow> bool" where
  "is_JStr v = (case v of JStr s \<Rightarrow> True | _ \<Rightarrow> False)"

definition str_object :: "json \<Rightarrow> bool" where
  "str_object v = (case v of JObj kvs \<Rightarrow> list_all (\<lambda>kv. is_JStr (snd kv)) kvs | _ \<Rightarrow> False)"

definition str_cert :: "json Certificate \<Rightarrow> bool" where
  "str_cert x = (is_JStr (name x) \<and> is_JStr (code x) \<and> is_JStr (image_data x))"

text \<open>
  The row the table stores for an object: each column holds the text its value is bound
  to.
\<close>

definition stored_as :: "json Certificate \<Rightarrow> string Certificate \<Rightarrow> bool" where
  "stored_as c r =
     (bind_param (name c) = Inr (Some (name r)) \<and> bind_param (code c) = Inr (Some (code r)) \<and>
      bind_param (image_data c) = Inr (Some (image_data r)))"


section \<open>Properties\<close>

subsection \<open>Python operations and the table\<close>

lemma getitem_Inr:
  "getitem d k = Inr v \<longleftrightarrow> (\<exists>kvs. d = JObj kvs \<and> map_of kvs k = Some v)"
  by (cases d) (auto split: option.splits)

lemma py_in_True_truthy: "py_in ''name'' d = Inr True \<Longrightarrow> truthy d"
  by (cases d) auto

lemma all_fields_True:
  "all_fields d = Inr True \<longleftrightarrow>
     py_in ''name'' d = Inr True \<and> py_in ''code'' d = Inr True \<and>
     py_in ''image_data'' d = Inr True"
  by (auto simp: all_fields_def split: sum.splits if_splits)

lemma all_fields_JObj:
  "all_fields (JObj kvs) =
     Inr (''name'' \<in> fst ` set kvs \<and> ''code'' \<in> fst ` set kvs \<and>
          ''image_data'' \<in> fst ` set kvs)"
  by (simp add: all_fields_def)

lemma all_fields_truthy: "all_fields d = Inr True \<Longrightarrow> truthy d"
  by (simp add: all_fields_True py_in_True_truthy)

lemma missing_data_False: "missing_data d = Inr False \<longleftrightarrow> all_fields d = Inr True"
  using all_fields_truthy [of d]
  by (auto simp: missing_data_def split: sum.splits)

lemma map_of_key: "k \<in> fst ` set kvs \<Longrightarrow> \<exists>v. map_of kvs k = Some v"
  by (cases "map_of kvs k") (auto simp: map_of_eq_None_iff)

lemma all_fields_new_Certificate:
  assumes "all_fields (JObj kvs) = Inr True"
  shows "\<exists>n c i. getitem (JObj kvs) ''name'' = Inr n \<and> getitem (JObj kvs) ''code'' = Inr c \<and>
           getitem (JObj kvs) ''image_data'' = Inr i \<and>
           new_Certificate (JObj kvs) = Inr \<lparr>name = n, code = c, image_data = i\<rparr>"
proof -
  from assms have k: "''name'' \<in> fst ` set kvs" "''code'' \<in> fst ` set kvs"
      "''image_data'' \<in> fst ` set kvs"
    by (simp_all add: all_fields_JObj)
  from map_of_key [OF k(1)] obtain n where n: "map_of kvs ''name'' = Some n" ..
  from map_of_key [OF k(2)] obtain c where c: "map_of kvs ''code'' = Some c" ..
  from map_of_key [OF k(3)] obtain i where i: "map_of kvs ''image_data'' = Some i" ..
  have g: "getitem (JObj kvs) ''name'' = Inr n" "getitem (JObj kvs) ''code'' = Inr c"
      "getitem (JObj kvs) ''image_data'' = Inr i"
    using n c i by simp_all
  have "new_Certificate (JObj kvs) = Inr \<lparr>name = n, code = c, image_data = i\<rparr>"
    unfolding new_Certificate_def g by simp
  with g show ?thesis by (intro exI conjI)
qed

lemma new_Certificate_code:
  "new_Certificate d = Inr x \<Longrightarrow> getitem d ''code'' = Inr (code x)"
  by (auto simp: new_Certificate_def split: sum.splits)

lemma filter_by_code_first_None:
  "filter_by_code_first db c = Inr None \<longleftrightarrow>
     bind_param c = Inr None \<or> (\<exists>t. bind_param c = Inr (Some t) \<and> t \<notin> set (codes db))"
proof (cases "bind_param c")
  case (Inl e)
  then show ?thesis by (simp add: filter_by_code_first_def)
next
  case (Inr bound)
  show ?thesis
  proof (cases bound)
    case None
    with Inr show ?thesis by (simp add: filter_by_code_first_def)
  next
    case (Some t)
    have "find (\<lambda>r. code (snd r) = t) db = None \<longleftrightarrow> t \<notin> set (codes db)"
      unfolding codes_def find_None_iff by force
    with Inr Some show ?thesis by (simp add: filter_by_code_first_def)
  qed
qed

lemma filter_by_code_first_JStr:
  "filter_by_code_first db (JStr c) = Inr (find (\<lambda>r. code (snd r) = c) db)"
  by (simp add: filter_by_code_first_def)

lemma filter_by_code_first_Some:
  "filter_by_code_first db c = Inr (Some r) \<Longrightarrow>
     bind_param c = Inr (Some (code (snd r))) \<and> r \<in> set db"
  by (auto simp: filter_by_code_first_def find_Some_iff split: sum.splits option.splits)

lemma filter_by_code_first_stored:
  assumes "bind_param c = Inr (Some t)" and "t \<in> set (codes db)"
  shows "\<exists>r. filter_by_code_first db c = Inr (Some r)"
proof -
  have "find (\<lambda>r. code (snd r) = t) db \<noteq> None"
    using assms(2) unfolding codes_def find_None_iff by force
  then obtain r where "find (\<lambda>r. code (snd r) = t) db = Some r" by auto
  with assms(1) have "filter_by_code_first db c = Inr (Some r)"
    by (simp add: filter_by_code_first_def)
  then show ?thesis by (rule exI)
qed

lemma codes_append: "codes (xs @ ys) = codes xs @ codes ys"
  by (simp add: codes_def)

lemma codes_snoc: "codes (db @ [(k, r)]) = codes db @ [code r]"
  by (simp add: codes_def)

lemma insert_row_Inr:
  "insert_row db c = Inr db' \<longleftrightarrow>
     (\<exists>n cd i. bind_param (name c) = Inr (Some n) \<and> bind_param (code c) = Inr (Some cd) \<and>
        bind_param (image_data c) = Inr (Some i) \<and> cd \<notin> set (codes db) \<and>
        db' = db @ [(next_id db, \<lparr>name = n, code = cd, image_data = i\<rparr>)])"
  by (auto simp: insert_row_def split: sum.splits option.splits)

lemma insert_rows_Cons:
  "insert_rows db (c # cs) = Inr db' \<longleftrightarrow>
     (\<exists>db1. insert_row db c = Inr db1 \<and> insert_rows db1 cs = Inr db')"
  by (cases "insert_row db c") simp_all

lemma insert_row_stored:
  assumes "insert_row db c = Inr db'"
  obtains r where "db' = db @ [(next_id db, r)]" "stored_as c r" "code r \<notin> set (codes db)"
proof -
  from assms obtain n cd i where
    b: "bind_param (name c) = Inr (Some n)" "bind_param (code c) = Inr (Some cd)"
       "bind_param (image_data c) = Inr (Some i)" and
    f: "cd \<notin> set (codes db)" and
    d: "db' = db @ [(next_id db, \<lparr>name = n, code = cd, image_data = i\<rparr>)]"
    unfolding insert_row_Inr by blast
  have "stored_as c \<lparr>name = n, code = cd, image_data = i\<rparr>"
    using b by (simp add: stored_as_def)
  with d f show ?thesis by (intro that [of "\<lparr>name = n, code = cd, image_data = i\<rparr>"]) simp_all
qed

lemma insert_rows_Inr:
  "insert_rows db cs = Inr db' \<Longrightarrow>
     \<exists>written. db' = db @ written \<and> list_all2 stored_as cs (map snd written) \<and>
       distinct (codes written) \<and> set (codes written) \<inter> set (codes db) = {}"
proof (induction cs arbitrary: db)
  case Nil
  then have "db' = db @ [] \<and> list_all2 stored_as [] (map snd []) \<and>
       distinct (codes []) \<and> set (codes []) \<inter> set (codes db) = {}"
    by (simp add: codes_def)
  then show ?case by (rule exI)
next
  case (Cons c cs)
  from Cons.prems obtain db1 where
    r: "insert_row db c = Inr db1" and rest: "insert_rows db1 cs = Inr db'"
    unfolding insert_rows_Cons by blast
  from insert_row_stored [OF r] obtain r1 where
    db1: "db1 = db @ [(next_id db, r1)]" and s1: "stored_as c r1" and
    f1: "code r1 \<notin> set (codes db)" by blast
  from Cons.IH [OF rest] obtain w where
    w: "db' = db1 @ w" and l: "list_all2 stored_as cs (map snd w)" and
    d: "distinct (codes w)" and i: "set (codes w) \<inter> set (codes db1) = {}"
    by blast
  have c1: "codes db1 = codes db @ [code r1]" unfolding db1 by (rule codes_snoc)
  have i1: "code r1 \<notin> set (codes w)" and i2: "set (codes w) \<inter> set (codes db) = {}"
    using i unfolding c1 by auto
  let ?w = "(next_id db, r1) # w"
  have cw: "codes ?w = code r1 # codes w" by (simp add: codes_def)
  have "db' = db @ ?w" using w db1 by simp
  moreover have "list_all2 stored_as (c # cs) (map snd ?w)" using s1 l by simp
  moreover have "distinct (codes ?w)" unfolding cw using d i1 by simp
  moreover have "set (codes ?w) \<inter> set (codes db) = {}" unfolding cw using i2 f1 by simp
  ultimately have "db' = db @ ?w \<and> list_all2 stored_as (c # cs) (map snd ?w) \<and>
       distinct (codes ?w) \<and> set (codes ?w) \<inter> set (codes db) = {}"
    by (intro conjI)
  then show ?case by (rule exI)
qed

lemma insert_rows_distinct:
  assumes a: "insert_rows db cs = Inr db'" and d: "distinct (codes db)"
  shows "distinct (codes db')"
proof -
  from insert_rows_Inr [OF a] obtain w where
    w: "db' = db @ w" and dw: "distinct (codes w)" and
    iw: "set (codes w) \<inter> set (codes db) = {}" by blast
  have "codes db' = codes db @ codes w" unfolding w by (rule codes_append)
  then show ?thesis using d dw iw by auto
qed

lemma insert_row_distinct:
  assumes "insert_row db c = Inr db'" and "distinct (codes db)"
  shows "distinct (codes db')"
proof -
  from insert_row_stored [OF assms(1)] obtain r where
    "db' = db @ [(next_id db, r)]" "code r \<notin> set (codes db)" by blast
  then show ?thesis using assms(2) by (simp add: codes_snoc)
qed

lemma str_cert_fields:
  assumes "str_cert x"
  obtains n c i where "x = \<lparr>name = JStr n, code = JStr c, image_data = JStr i\<rparr>"
proof -
  from assms obtain n c i where
    "name x = JStr n" "code x = JStr c" "image_data x = JStr i"
    by (auto simp: str_cert_def is_JStr_def split: json.splits)
  then have "x = \<lparr>name = JStr n, code = JStr c, image_data = JStr i\<rparr>" by simp
  then show ?thesis by (rule that)
qed

lemma insert_row_str:
  "insert_row db \<lparr>name = JStr n, code = JStr c, image_data = JStr i\<rparr> =
     (if c \<in> set (codes db) then Inl IntegrityError
      else Inr (db @ [(next_id db, \<lparr>name = n, code = c, image_data = i\<rparr>)]))"
  by (simp add: insert_row_def)

lemma insert_rows_Inl:
  "list_all str_cert cs \<Longrightarrow> insert_rows db cs = Inl e \<Longrightarrow> e = IntegrityError"
proof (induction cs arbitrary: db)
  case Nil
  then show ?case by simp
next
  case (Cons x cs)
  from Cons.prems(1) have sx: "str_cert x" and scs: "list_all str_cert cs" by simp_all
  from str_cert_fields [OF sx] obtain n c i where
    x: "x = \<lparr>name = JStr n, code = JStr c, image_data = JStr i\<rparr>" .
  show ?case
  proof (cases "c \<in> set (codes db)")
    case True
    with Cons.prems(2) show ?thesis unfolding x by (simp add: insert_row_str)
  next
    case False
    with Cons.prems(2) have
      "insert_rows (db @ [(next_id db, \<lparr>name = n, code = c, image_data = i\<rparr>)]) cs = Inl e"
      unfolding x by (simp add: insert_row_str)
    from Cons.IH [OF scs this] show ?thesis .
  qed
qed


subsection \<open>The loop of the bulk handler\<close>

text \<open>
  One iteration raises, skips its item, or appends the certificate of its item; which of
  the three does not depend on the accumulator.
\<close>

lemma bulk_loop_Cons:
  obtains
    (raise) e where "\<And>acc. bulk_loop db (d # rest) acc = Inl e"
  | (skip) "\<And>acc. bulk_loop db (d # rest) acc = bulk_loop db rest acc"
  | (take) x where "\<And>acc. bulk_loop db (d # rest) acc = bulk_loop db rest (acc @ [x])"
      "all_fields d = Inr True" "new_Certificate d = Inr x"
      "filter_by_code_first db (code x) = Inr None"
proof (cases "all_fields d")
  case (Inl e)
  then have "\<And>acc. bulk_loop db (d # rest) acc = Inl e" by simp
  then show ?thesis by (rule raise)
next
  case (Inr present)
  show ?thesis
  proof (cases present)
    case False
    with Inr have "\<And>acc. bulk_loop db (d # rest) acc = bulk_loop db rest acc" by simp
    then show ?thesis by (rule skip)
  next
    case True
    with Inr have a: "all_fields d = Inr True" by simp
    show ?thesis
    proof (cases "getitem d ''code''")
      case (Inl e)
      with a have "\<And>acc. bulk_loop db (d # rest) acc = Inl e" by simp
      then show ?thesis by (rule raise)
    next
      case g: (Inr c)
      show ?thesis
      proof (cases "filter_by_code_first db c")
        case (Inl e)
        with a g have "\<And>acc. bulk_loop db (d # rest) acc = Inl e" by simp
        then show ?thesis by (rule raise)
      next
        case f: (Inr found)
        show ?thesis
        proof (cases found)
          case (Some r)
          with a g f have "\<And>acc. bulk_loop db (d # rest) acc = bulk_loop db rest acc" by simp
          then show ?thesis by (rule skip)
        next
          case None
          show ?thesis
          proof (cases "new_Certificate d")
            case (Inl e)
            with a g f None have "\<And>acc. bulk_loop db (d # rest) acc = Inl e" by simp
            then show ?thesis by (rule raise)
          next
            case (Inr x)
            with a g f None have
              s: "\<And>acc. bulk_loop db (d # rest) acc = bulk_loop db rest (acc @ [x])" by simp
            from new_Certificate_code [OF Inr] g have "code x = c" by simp
            with f None have "filter_by_code_first db (code x) = Inr None" by simp
            with s a Inr show ?thesis by (intro take [of x])
          qed
        qed
      qed
    qed
  qed
qed

lemma bulk_loop_append:
  "bulk_loop db (xs @ ys) acc = Inr certs \<Longrightarrow> \<exists>s. bulk_loop db ys (acc @ s) = Inr certs"
proof (induction xs arbitrary: acc)
  case Nil
  then have "bulk_loop db ys (acc @ []) = Inr certs" by simp
  then show ?case by (rule exI)
next
  case (Cons d xs)
  show ?case
  proof (cases rule: bulk_loop_Cons [of db d "xs @ ys"])
    case (raise e)
    with Cons.prems show ?thesis by simp
  next
    case skip
    with Cons.prems have "bulk_loop db (xs @ ys) acc = Inr certs" by simp
    from Cons.IH [OF this] show ?thesis .
  next
    case (take x)
    with Cons.prems have "bulk_loop db (xs @ ys) (acc @ [x]) = Inr certs" by simp
    from Cons.IH [OF this] obtain t where "bulk_loop db ys ((acc @ [x]) @ t) = Inr certs" ..
    then have "bulk_loop db ys (acc @ ([x] @ t)) = Inr certs" by simp
    then show ?thesis by (rule exI)
  qed
qed

lemma bulk_loop_prefix:
  "bulk_loop db items acc = Inr certs \<Longrightarrow> \<exists>s. certs = acc @ s"
  using bulk_loop_append [of db items "[]" acc certs] by auto


lemma str_object_all_fields:
  assumes "str_object d"
  obtains (lacks) "all_fields d = Inr False"
  | (has) n c i where "all_fields d = Inr True" "getitem d ''code'' = Inr (JStr c)"
      "new_Certificate d = Inr \<lparr>name = JStr n, code = JStr c, image_data = JStr i\<rparr>"
proof -
  from assms obtain kvs where d: "d = JObj kvs" and
    vs: "list_all (\<lambda>kv. is_JStr (snd kv)) kvs"
    by (auto simp: str_object_def split: json.splits)
  have str: "\<exists>s. v = JStr s" if "map_of kvs k = Some v" for k v
  proof -
    from that have "(k, v) \<in> set kvs" by (rule map_of_SomeD)
    with vs have "is_JStr v" by (auto simp: list_all_iff)
    then show ?thesis by (auto simp: is_JStr_def split: json.splits)
  qed
  show ?thesis
  proof (cases "all_fields d = Inr True")
    case False
    then have "all_fields d = Inr False" unfolding d all_fields_JObj by simp
    then show ?thesis by (rule lacks)
  next
    case True
    from all_fields_new_Certificate [OF True [unfolded d]] obtain n c i where
      g: "getitem (JObj kvs) ''name'' = Inr n" "getitem (JObj kvs) ''code'' = Inr c"
         "getitem (JObj kvs) ''image_data'' = Inr i" and
      nc: "new_Certificate (JObj kvs) = Inr \<lparr>name = n, code = c, image_data = i\<rparr>"
      by blast
    from g have m: "map_of kvs ''name'' = Some n" "map_of kvs ''code'' = Some c"
        "map_of kvs ''image_data'' = Some i"
      by (simp_all split: option.splits)
    from str [OF m(1)] obtain n' where n': "n = JStr n'" ..
    from str [OF m(2)] obtain c' where c': "c = JStr c'" ..
    from str [OF m(3)] obtain i' where i': "i = JStr i'" ..
    from True g(2) nc show ?thesis unfolding d n' c' i' by (rule has [unfolded d])
  qed
qed

lemma str_object_step:
  assumes "str_object d"
  obtains (skip) "\<And>acc. bulk_loop db (d # rest) acc = bulk_loop db rest acc"
  | (take) x where "str_cert x"
      "\<And>acc. bulk_loop db (d # rest) acc = bulk_loop db rest (acc @ [x])"
  using assms
proof (cases rule: str_object_all_fields)
  case lacks
  then have "\<And>acc. bulk_loop db (d # rest) acc = bulk_loop db rest acc" by simp
  then show ?thesis by (rule skip)
next
  case (has n c i)
  let ?x = "\<lparr>name = JStr n, code = JStr c, image_data = JStr i\<rparr>"
  have sx: "str_cert ?x" by (simp add: str_cert_def is_JStr_def)
  show ?thesis
  proof (cases "find (\<lambda>r. code (snd r) = c) db")
    case None
    with has have "\<And>acc. bulk_loop db (d # rest) acc = bulk_loop db rest (acc @ [?x])"
      by (simp add: filter_by_code_first_JStr)
    with sx show ?thesis by (rule take)
  next
    case (Some r)
    with has have "\<And>acc. bulk_loop db (d # rest) acc = bulk_loop db rest acc"
      by (simp add: filter_by_code_first_JStr)
    then show ?thesis by (rule skip)
  qed
qed

lemma bulk_loop_str_objects:
  assumes "list_all str_object items" and "list_all str_cert acc"
  shows "\<exists>certs. bulk_loop db items acc = Inr certs \<and> list_all str_cert certs"
  using assms
proof (induction items arbitrary: acc)
  case Nil
  then show ?case by simp
next
  case (Cons d items)
  from Cons.prems(1) have sd: "str_object d" and si: "list_all str_object items" by simp_all
  from sd show ?case
  proof (cases rule: str_object_step [of d db items])
    case skip
    with Cons.IH [OF si Cons.prems(2)] show ?thesis by simp
  next
    case (take x)
    with Cons.prems(2) have "list_all str_cert (acc @ [x])" by simp
    from Cons.IH [OF si this] take(2) show ?thesis by simp
  qed
qed

lemma bulk_loop_accepts:
  assumes "all_fields p = Inr True" and "getitem p ''code'' = Inr (JStr c)"
    and "c \<notin> set (codes db)"
  shows "\<exists>x. code x = JStr c \<and>
           (\<forall>acc. bulk_loop db (p # rest) acc = bulk_loop db rest (acc @ [x]))"
proof -
  from assms(2) obtain kvs where p: "p = JObj kvs" unfolding getitem_Inr by blast
  from all_fields_new_Certificate [OF assms(1) [unfolded p]] assms(2) obtain n i where
    nc: "new_Certificate p = Inr \<lparr>name = n, code = JStr c, image_data = i\<rparr>"
    unfolding p by auto
  have f: "filter_by_code_first db (JStr c) = Inr None"
    using assms(3) by (simp add: filter_by_code_first_None)
  let ?x = "\<lparr>name = n, code = JStr c, image_data = i\<rparr>"
  have "code ?x = JStr c \<and>
      (\<forall>acc. bulk_loop db (p # rest) acc = bulk_loop db rest (acc @ [?x]))"
    using assms(1,2) nc f by simp
  then show ?thesis by (rule exI)
qed

lemma bulk_loop_rejects:
  assumes "\<forall>item \<in> set items.
     all_fields item = Inr False \<or>
     (\<exists>v c. getitem item ''code'' = Inr v \<and> bind_param v = Inr (Some c) \<and> c \<in> set (codes db))"
  shows "bulk_loop db items acc = Inr acc"
  using assms
proof (induction items)
  case Nil
  show ?case by simp
next
  case (Cons item items)
  then have IH: "bulk_loop db items acc = Inr acc" by simp
  show ?case
  proof (cases rule: bulk_loop_Cons [of db item items])
    case skip
    with IH show ?thesis by simp
  next
    case (raise e)
    from Cons.prems have
      "all_fields item = Inr False \<or>
       (\<exists>v c. getitem item ''code'' = Inr v \<and> bind_param v = Inr (Some c) \<and> c \<in> set (codes db))"
      by simp
    then have "\<exists>certs. bulk_loop db (item # items) acc = bulk_loop db items acc"
    proof
      assume "all_fields item = Inr False"
      then show ?thesis by simp
    next
      assume "\<exists>v c. getitem item ''code'' = Inr v \<and> bind_param v = Inr (Some c) \<and> c \<in> set (codes db)"
      then obtain v c where g: "getitem item ''code'' = Inr v" and
        b: "bind_param v = Inr (Some c)" "c \<in> set (codes db)" by blast
      from filter_by_code_first_stored [OF b] obtain r where
        f: "filter_by_code_first db v = Inr (Some r)" ..
      show ?thesis
      proof (cases "all_fields item")
        case (Inl e')
        from g obtain kvs where "item = JObj kvs" unfolding getitem_Inr by blast
        with Inl show ?thesis by (simp add: all_fields_JObj)
      next
        case (Inr present)
        with g f show ?thesis by simp
      qed
    qed
    with raise IH show ?thesis by simp
  next
    case (take x)
    from Cons.prems have
      "all_fields item = Inr False \<or>
       (\<exists>v c. getitem item ''code'' = Inr v \<and> bind_param v = Inr (Some c) \<and> c \<in> set (codes db))"
      by simp
    with take(2) obtain v c where g: "getitem item ''code'' = Inr v" and
      b: "bind_param v = Inr (Some c)" "c \<in> set (codes db)" by auto
    from new_Certificate_code [OF take(3)] g have "code x = v" by simp
    with take(4) b show ?thesis by (simp add: filter_by_code_first_None)
  qed
qed

subsection \<open>The single-add handler\<close>

lemma add_certificate_missing:
  "missing_data data = Inr True \<Longrightarrow>
     add_certificate db data = (db, Response (JError ''Missing data'') 400)"
  by (simp add: add_certificate_def)

lemma add_certificate_present:
  assumes m: "missing_data data = Inr False"
    and g: "getitem data ''code'' = Inr v"
  shows "add_certificate db data =
     (case filter_by_code_first db v of
        Inl e \<Rightarrow> (db, Uncaught e)
      | Inr (Some r) \<Rightarrow> (db, Response (JError ''Certificate code already exists'') 409)
      | Inr None \<Rightarrow>
         (case new_Certificate data of
            Inl e \<Rightarrow> (db, Uncaught e)
          | Inr new_cert \<Rightarrow>
             (case insert_row db new_cert of
                Inl e \<Rightarrow> (db, Uncaught e)
              | Inr db' \<Rightarrow>
                 (db', Response (JMessageId ''Certificate created successfully'' (next_id db)) 201))))"
  unfolding add_certificate_def m g session_add_commit_def
  by (simp split: sum.splits option.splits)

lemma add_certificate_store:
  "fst (add_certificate db data) = db \<or>
   (\<exists>cert. insert_row db cert = Inr (fst (add_certificate db data)))"
  unfolding add_certificate_def session_add_commit_def
  by (auto split: sum.splits option.splits if_splits)

lemma add_certificate_not_400:
  assumes "missing_data data = Inr False"
  shows "snd (add_certificate db data) \<noteq> Response (JError ''Missing data'') 400"
  unfolding add_certificate_def assms session_add_commit_def
  by (simp split: sum.splits option.splits prod.splits)

subsection \<open>Claims on the single-add and the lookup\<close>

text \<open>
  C10. The lookup is read-only: for every code and every table, \<open>get_certificate\<close> hands
  back the table it was given, whether or not a row matches.
\<close>

theorem get_certificate_read_only: "fst (get_certificate db c) = db"
  by (simp add: get_certificate_def split: sum.splits option.splits)

theorem get_certificate_read_only_witness:
  "fst (get_certificate [(1, \<lparr>name = ''A'', code = ''X1'', image_data = ''aGk=''\<rparr>)] ''X1'') =
     [(1, \<lparr>name = ''A'', code = ''X1'', image_data = ''aGk=''\<rparr>)]
   \<and> fst (get_certificate [(1, \<lparr>name = ''A'', code = ''X1'', image_data = ''aGk=''\<rparr>)] ''Z9'') =
     [(1, \<lparr>name = ''A'', code = ''X1'', image_data = ''aGk=''\<rparr>)]"
  by (simp only: get_certificate_read_only)






text \<open>
  C9. The validation of a single-add looks at the presence of the three names only: a
  body in which \<^verbatim>\<open>in\<close> finds all three passes the guard of line 60 and is never answered
  \<open>Missing data\<close>, whatever the values are. The witness takes the empty string for
  \<open>name\<close> and \<open>image_data\<close>.
\<close>

theorem add_certificate_presence_only:
  assumes "py_in ''name'' data = Inr True" and "py_in ''code'' data = Inr True"
    and "py_in ''image_data'' data = Inr True"
  shows "missing_data data = Inr False \<and>
         snd (add_certificate db data) \<noteq> Response (JError ''Missing data'') 400"
proof -
  from assms have "all_fields data = Inr True" by (simp add: all_fields_True)
  then have m: "missing_data data = Inr False" by (simp add: missing_data_False)
  from m add_certificate_not_400 [OF m] show ?thesis by (rule conjI)
qed

theorem add_certificate_presence_only_witness:
  "missing_data (JObj [(''name'', JStr []), (''code'', JStr ''X2''), (''image_data'', JStr [])])
     = Inr False \<and>
   snd (add_certificate []
          (JObj [(''name'', JStr []), (''code'', JStr ''X2''), (''image_data'', JStr [])]))
     \<noteq> Response (JError ''Missing data'') 400"
  by (rule add_certificate_presence_only) simp_all

text \<open>
  C4. A single-add whose payload's code is already in the table (as the text the code is
  bound to) leaves the table as it was: the existing row is untouched and no row is
  written. With the other two fields present too (the guard of line 60 comes first), the
  answer is 409 \<open>Certificate code already exists\<close>.
\<close>

theorem add_certificate_duplicate_code:
  assumes "getitem data ''code'' = Inr v" and "bind_param v = Inr (Some c)"
    and "c \<in> set (codes db)"
  shows "fst (add_certificate db data) = db \<and>
         (py_in ''name'' data = Inr True \<and> py_in ''image_data'' data = Inr True \<longrightarrow>
            add_certificate db data =
              (db, Response (JError ''Certificate code already exists'') 409))"
proof -
  from assms(1) obtain kvs where d: "data = JObj kvs" and mv: "map_of kvs ''code'' = Some v"
    unfolding getitem_Inr by blast
  from map_of_SomeD [OF mv] have "fst (''code'', v) \<in> fst ` set kvs" by (rule imageI)
  then have kc: "py_in ''code'' data = Inr True"
    unfolding d by simp
  from filter_by_code_first_stored [OF assms(2,3)] obtain r where
    f: "filter_by_code_first db v = Inr (Some r)" ..
  show ?thesis
  proof (cases "all_fields data = Inr True")
    case True
    then have m: "missing_data data = Inr False" by (simp add: missing_data_False)
    show ?thesis unfolding add_certificate_present [OF m assms(1)] f by simp
  next
    case False
    then have nb: "\<not> (py_in ''name'' data = Inr True \<and> py_in ''image_data'' data = Inr True)"
      using kc by (simp add: all_fields_True)
    have "all_fields data = Inr False"
      using False unfolding d all_fields_JObj by simp
    then have "missing_data data = Inr True" by (simp add: missing_data_def)
    from add_certificate_missing [OF this] nb show ?thesis by simp
  qed
qed

theorem add_certificate_duplicate_code_witness:
  "fst (add_certificate [(1, \<lparr>name = ''A'', code = ''X1'', image_data = ''aGk=''\<rparr>)]
     (JObj [(''name'', JStr ''B''), (''code'', JStr ''X1''), (''image_data'', JStr ''eW8='')])) =
     [(1, \<lparr>name = ''A'', code = ''X1'', image_data = ''aGk=''\<rparr>)] \<and>
   add_certificate [(1, \<lparr>name = ''A'', code = ''X1'', image_data = ''aGk=''\<rparr>)]
     (JObj [(''name'', JStr ''B''), (''code'', JStr ''X1''), (''image_data'', JStr ''eW8='')]) =
     ([(1, \<lparr>name = ''A'', code = ''X1'', image_data = ''aGk=''\<rparr>)],
      Response (JError ''Certificate code already exists'') 409)"
  using add_certificate_duplicate_code
    [of "JObj [(''name'', JStr ''B''), (''code'', JStr ''X1''), (''image_data'', JStr ''eW8='')]"
        "JStr ''X1''" "''X1''"
        "[(1, \<lparr>name = ''A'', code = ''X1'', image_data = ''aGk=''\<rparr>)]"]
  by (simp add: codes_def)

subsection \<open>The bulk handler\<close>

lemma getitem_missing_list:
  assumes "getitem data k = Inr v"
  shows "truthy data \<and> py_in k data = Inr True"
proof -
  from assms obtain kvs where d: "data = JObj kvs" and mv: "map_of kvs k = Some v"
    unfolding getitem_Inr by blast
  from map_of_SomeD [OF mv] have "fst (k, v) \<in> fst ` set kvs" by (rule imageI)
  moreover from map_of_SomeD [OF mv] have "kvs \<noteq> []" by auto
  ultimately show ?thesis unfolding d by simp
qed


lemma add_bulk_missing_list:
  "missing_list data = Inr True \<Longrightarrow>
     add_bulk_certificates db data = (db, Response (JError ''Missing certificate list'') 400)"
  by (simp add: add_bulk_certificates_def)

lemma add_bulk_items:
  assumes g: "getitem data ''certificates'' = Inr v"
    and i: "py_iter v = Inr items"
    and l: "bulk_loop db items [] = Inr certs"
  shows "add_bulk_certificates db data =
     (if certs = []
      then (db, Response (JMessage ''No new certificates to add or data was invalid.'') 200)
      else (case bulk_save_commit db certs of
              Inl e \<Rightarrow> (db, Uncaught e)
            | Inr db' \<Rightarrow> (db', Response (JAdded (length certs)) 201)))"
proof -
  from getitem_missing_list [OF g] have "missing_list data = Inr False"
    by (simp add: missing_list_def)
  then show ?thesis
    unfolding add_bulk_certificates_def using g i l by simp
qed

text \<open>
  The four ways the bulk handler ends: the guard of line 84, an escaped exception (from the
  request or from a refused batch), the early return of line 102, and a batch the table
  takes.
\<close>

lemma add_bulk_cases:
  obtains
    (missing) "missing_list data = Inr True"
      "add_bulk_certificates db data = (db, Response (JError ''Missing certificate list'') 400)"
  | (raised) e where "add_bulk_certificates db data = (db, Uncaught e)"
  | (no_new) v items where "getitem data ''certificates'' = Inr v" "py_iter v = Inr items"
      "bulk_loop db items [] = Inr []"
      "add_bulk_certificates db data =
         (db, Response (JMessage ''No new certificates to add or data was invalid.'') 200)"
  | (written) v items certs db' where "getitem data ''certificates'' = Inr v"
      "py_iter v = Inr items" "bulk_loop db items [] = Inr certs" "certs \<noteq> []"
      "insert_rows db certs = Inr db'"
      "add_bulk_certificates db data = (db', Response (JAdded (length certs)) 201)"
proof (cases "missing_list data")
  case (Inl e)
  then have "add_bulk_certificates db data = (db, Uncaught e)"
    by (simp add: add_bulk_certificates_def)
  then show ?thesis by (rule raised)
next
  case (Inr m)
  show ?thesis
  proof (cases m)
    case True
    with Inr have t: "missing_list data = Inr True" by simp
    from t add_bulk_missing_list [OF t] show ?thesis by (rule missing)
  next
    case False
    with Inr have f: "missing_list data = Inr False" by simp
    show ?thesis
    proof (cases "getitem data ''certificates''")
      case (Inl e)
      with f have "add_bulk_certificates db data = (db, Uncaught e)"
        by (simp add: add_bulk_certificates_def)
      then show ?thesis by (rule raised)
    next
      case g: (Inr v)
      show ?thesis
      proof (cases "py_iter v")
        case (Inl e)
        with f g have "add_bulk_certificates db data = (db, Uncaught e)"
          by (simp add: add_bulk_certificates_def)
        then show ?thesis by (rule raised)
      next
        case i: (Inr items)
        show ?thesis
        proof (cases "bulk_loop db items []")
          case (Inl e)
          with f g i have "add_bulk_certificates db data = (db, Uncaught e)"
            by (simp add: add_bulk_certificates_def)
          then show ?thesis by (rule raised)
        next
          case l: (Inr certs)
          note r = add_bulk_items [OF g i l]
          show ?thesis
          proof (cases "certs = []")
            case True
            have l0: "bulk_loop db items [] = Inr []" using l True by simp
            have r0: "add_bulk_certificates db data =
                (db, Response (JMessage ''No new certificates to add or data was invalid.'') 200)"
              using r True by simp
            show ?thesis by (rule no_new [OF g i l0 r0])
          next
            case ne: False
            show ?thesis
            proof (cases "insert_rows db certs")
              case (Inl e)
              have "add_bulk_certificates db data = (db, Uncaught e)"
                using r ne Inl by (simp add: bulk_save_commit_def)
              then show ?thesis by (rule raised)
            next
              case (Inr db')
              have "add_bulk_certificates db data =
                  (db', Response (JAdded (length certs)) 201)"
                using r ne Inr by (simp add: bulk_save_commit_def)
              then show ?thesis by (rule written [OF g i l ne Inr])
            qed
          qed
        qed
      qed
    qed
  qed
qed






lemma bulk_loop_raises:
  "item \<in> set items \<Longrightarrow> all_fields item = Inl e0 \<Longrightarrow> \<exists>e. bulk_loop db items acc = Inl e"
proof (induction items arbitrary: acc)
  case Nil
  then show ?case by simp
next
  case (Cons d items)
  show ?case
  proof (cases "item = d")
    case True
    with Cons.prems(2) have "bulk_loop db (d # items) acc = Inl e0" by simp
    then show ?thesis by (rule exI)
  next
    case False
    with Cons.prems(1) have m: "item \<in> set items" by simp
    show ?thesis
    proof (cases rule: bulk_loop_Cons [of db d items])
      case (raise e)
      then have "bulk_loop db (d # items) acc = Inl e" by simp
      then show ?thesis by (rule exI)
    next
      case skip
      with Cons.IH [OF m Cons.prems(2), of acc] show ?thesis by simp
    next
      case (take x)
      with Cons.IH [OF m Cons.prems(2), of "acc @ [x]"] show ?thesis by simp
    qed
  qed
qed

text \<open>
  A batch in which every item is an object or another container that lacks a name, or
  carries a code the table holds, adds nothing and is answered 200.
\<close>

lemma add_bulk_rejected_items:
  assumes "getitem data ''certificates'' = Inr v" and "py_iter v = Inr items"
    and "\<forall>item \<in> set items.
       all_fields item = Inr False \<or>
       (\<exists>v c. getitem item ''code'' = Inr v \<and> bind_param v = Inr (Some c) \<and> c \<in> set (codes db))"
  shows "add_bulk_certificates db data =
     (db, Response (JMessage ''No new certificates to add or data was invalid.'') 200)"
  using add_bulk_items [OF assms(1,2) bulk_loop_rejects [OF assms(3)]] by simp

text \<open>
  C6. The specification states that a batch in which every item is malformed is answered
  200 with nothing added, and the comment of line 90 says that malformed entries are
  skipped. The loop skips an item only when the membership test of line 89 is false; on
  an item that is not a container (null, a number, a bool) the test raises. So a batch
  that holds such an item ends in an uncaught exception (status 500) whatever its other
  items are; the table is unchanged. The second theorem evaluates the batch \<open>[null]\<close>.
\<close>

theorem add_bulk_non_container_item:
  assumes "getitem data ''certificates'' = Inr v" and "py_iter v = Inr items"
    and "item \<in> set items" and "py_in ''name'' item = Inl TypeError"
  shows "\<exists>e. add_bulk_certificates db data = (db, Uncaught e)"
proof -
  from assms(4) have "all_fields item = Inl TypeError" by (simp add: all_fields_def)
  from bulk_loop_raises [OF assms(3) this] obtain e where
    l: "bulk_loop db items [] = Inl e" ..
  from getitem_missing_list [OF assms(1)] have "missing_list data = Inr False"
    by (simp add: missing_list_def)
  then have "add_bulk_certificates db data = (db, Uncaught e)"
    unfolding add_bulk_certificates_def using assms(1,2) l by simp
  then show ?thesis by (rule exI)
qed

theorem add_bulk_non_container_item_witness:
  "(\<exists>e. add_bulk_certificates [(1, \<lparr>name = ''A'', code = ''X1'', image_data = ''aGk=''\<rparr>)]
          (JObj [(''certificates'', JArr [JObj [(''name'', JStr ''B'')], JNull])]) =
        ([(1, \<lparr>name = ''A'', code = ''X1'', image_data = ''aGk=''\<rparr>)], Uncaught e)) \<and>
   add_bulk_certificates [(1, \<lparr>name = ''A'', code = ''X1'', image_data = ''aGk=''\<rparr>)]
     (JObj [(''certificates'', JArr [JObj [(''name'', JStr ''B'')], JNull])]) =
     ([(1, \<lparr>name = ''A'', code = ''X1'', image_data = ''aGk=''\<rparr>)], Uncaught TypeError) \<and>
   add_bulk_certificates [] (JObj [(''certificates'', JArr [JNull])]) =
     ([], Uncaught TypeError)"
proof (intro conjI)
  show "\<exists>e. add_bulk_certificates [(1, \<lparr>name = ''A'', code = ''X1'', image_data = ''aGk=''\<rparr>)]
          (JObj [(''certificates'', JArr [JObj [(''name'', JStr ''B'')], JNull])]) =
        ([(1, \<lparr>name = ''A'', code = ''X1'', image_data = ''aGk=''\<rparr>)], Uncaught e)"
    by (rule add_bulk_non_container_item
          [where v = "JArr [JObj [(''name'', JStr ''B'')], JNull]"
             and items = "[JObj [(''name'', JStr ''B'')], JNull]" and item = JNull])
       simp_all
qed (simp_all add: add_bulk_certificates_def missing_list_def all_fields_def)

text \<open>
  C2. From a table in which no two rows share a code, a single-add and a bulk import
  both end in such a table, whatever the request: the table refuses a row whose code it
  holds, and a refused batch leaves it as it was.
\<close>

theorem unique_codes_preserved:
  assumes "distinct (codes db)"
  shows "distinct (codes (fst (add_certificate db data))) \<and>
         distinct (codes (fst (add_bulk_certificates db body)))"
proof
  show "distinct (codes (fst (add_certificate db data)))"
    using add_certificate_store [of db data] assms insert_row_distinct by auto
  show "distinct (codes (fst (add_bulk_certificates db body)))"
  proof (cases rule: add_bulk_cases [of body db])
    case (written v items certs db')
    then show ?thesis using insert_rows_distinct [OF _ assms] by simp
  qed (simp_all add: assms)
qed

theorem unique_codes_preserved_witness:
  "distinct (codes (fst (add_certificate
       [(1, \<lparr>name = ''A'', code = ''X1'', image_data = ''aGk=''\<rparr>)]
       (JObj [(''name'', JStr ''B''), (''code'', JStr ''X2''), (''image_data'', JStr ''eW8='')])))) \<and>
   distinct (codes (fst (add_bulk_certificates
       [(1, \<lparr>name = ''A'', code = ''X1'', image_data = ''aGk=''\<rparr>)]
       (JObj [(''certificates'', JArr
          [JObj [(''name'', JStr ''B''), (''code'', JStr ''X2''), (''image_data'', JStr ''eW8='')],
           JObj [(''name'', JStr ''C''), (''code'', JStr ''X1''), (''image_data'', JStr ''b2s='')],
           JObj [(''name'', JStr ''D''), (''code'', JStr ''X3''), (''image_data'', JStr ''b2s='')]])]))))"
  by (rule unique_codes_preserved) (simp add: codes_def)

lemma list_all2_length_stored:
  "list_all2 stored_as cs rs \<Longrightarrow> length rs = length cs"
  by (simp add: list_all2_lengthD)

text \<open>
  C3, as amended. For a bulk import whose accepted list \<open>certs_to_add\<close> is not empty, the
  handler answers by the outcome of the batch insert alone. If the insert succeeds, the
  message reports \<open>len(certs_to_add)\<close>, the length of the list built before the write (the
  insert itself returns no count), and that is the number of rows written: the new table
  is the old one followed by one row for each accepted certificate, in order. If the
  insert is refused, no count is reported and the table is the one it was.
\<close>

theorem add_bulk_reported_count:
  assumes "getitem data ''certificates'' = Inr v" and "py_iter v = Inr items"
    and "bulk_loop db items [] = Inr certs" and "certs \<noteq> []"
  shows "add_bulk_certificates db data =
           (case bulk_save_commit db certs of
              Inl e \<Rightarrow> (db, Uncaught e)
            | Inr db' \<Rightarrow> (db', Response (JAdded (length certs)) 201)) \<and>
         (\<forall>db'. bulk_save_commit db certs = Inr db' \<longrightarrow>
            (\<exists>written. db' = db @ written \<and> length written = length certs \<and>
               list_all2 stored_as certs (map snd written)))"
proof
  show "add_bulk_certificates db data =
           (case bulk_save_commit db certs of
              Inl e \<Rightarrow> (db, Uncaught e)
            | Inr db' \<Rightarrow> (db', Response (JAdded (length certs)) 201))"
    using add_bulk_items [OF assms(1,2,3)] assms(4) by simp
  show "\<forall>db'. bulk_save_commit db certs = Inr db' \<longrightarrow>
            (\<exists>written. db' = db @ written \<and> length written = length certs \<and>
               list_all2 stored_as certs (map snd written))"
  proof (intro allI impI)
    fix db' assume "bulk_save_commit db certs = Inr db'"
    then have "insert_rows db certs = Inr db'" by (simp add: bulk_save_commit_def)
    from insert_rows_Inr [OF this] obtain w where
      w: "db' = db @ w" and l: "list_all2 stored_as certs (map snd w)" by blast
    from list_all2_length_stored [OF l] have "length w = length certs" by simp
    with w l have "db' = db @ w \<and> length w = length certs \<and>
        list_all2 stored_as certs (map snd w)" by (intro conjI)
    then show "\<exists>written. db' = db @ written \<and> length written = length certs \<and>
               list_all2 stored_as certs (map snd written)" by (rule exI)
  qed
qed

lemma stored_as_str:
  "stored_as \<lparr>name = JStr n, code = JStr c, image_data = JStr i\<rparr> r \<longleftrightarrow>
     r = \<lparr>name = n, code = c, image_data = i\<rparr>"
  by (cases r) (auto simp: stored_as_def)


lemma stored_as_codes:
  "list_all2 stored_as cs rs \<Longrightarrow> list_all str_cert cs \<Longrightarrow>
     map (\<lambda>r. JStr (code r)) rs = map code cs"
proof (induction rule: list_all2_induct)
  case Nil
  show ?case by simp
next
  case (Cons x cs r rs)
  from Cons.prems have sx: "str_cert x" and scs: "list_all str_cert cs" by simp_all
  from str_cert_fields [OF sx] obtain n c i where
    x: "x = \<lparr>name = JStr n, code = JStr c, image_data = JStr i\<rparr>" .
  from Cons.hyps(1) have "r = \<lparr>name = n, code = c, image_data = i\<rparr>"
    unfolding x stored_as_str .
  with x Cons.IH [OF scs] show ?case by simp
qed





text \<open>
  C1. The specification states that of two well-formed items of a batch that share a code
  not in the table the first is written and the second dropped. The loop has no record of
  the codes it has accepted (its only check is the query against the table, line 93,
  while the comment of line 92 announces a check within the batch), so both items reach
  the batch insert, the table's unique constraint refuses it, and no row of the batch is
  written: for a batch of objects with string values the handler ends with an uncaught
  \<open>IntegrityError\<close> and the table it started from. The second theorem evaluates the
  specification's own example, on an empty table.
\<close>

theorem add_bulk_in_batch_duplicate:
  assumes g: "getitem data ''certificates'' = Inr (JArr (xs @ p # ys @ q # zs))"
    and s: "list_all str_object (xs @ p # ys @ q # zs)"
    and p: "all_fields p = Inr True" "getitem p ''code'' = Inr (JStr c)"
    and q: "all_fields q = Inr True" "getitem q ''code'' = Inr (JStr c)"
    and c: "c \<notin> set (codes db)"
  shows "add_bulk_certificates db data = (db, Uncaught IntegrityError)"
proof -
  from bulk_loop_str_objects [OF s, of "[]" db] obtain certs where
    l: "bulk_loop db (xs @ p # ys @ q # zs) [] = Inr certs" and
    sc: "list_all str_cert certs" by auto
  from bulk_loop_append [OF l] obtain s1 where
    "bulk_loop db (p # ys @ q # zs) ([] @ s1) = Inr certs" ..
  moreover from bulk_loop_accepts [OF p c, of "ys @ q # zs"] obtain x where
    x: "code x = JStr c"
    "\<forall>acc. bulk_loop db (p # ys @ q # zs) acc = bulk_loop db (ys @ q # zs) (acc @ [x])"
    by blast
  ultimately have "bulk_loop db (ys @ q # zs) (([] @ s1) @ [x]) = Inr certs" by simp
  from bulk_loop_append [OF this] obtain s2 where
    "bulk_loop db (q # zs) ((([] @ s1) @ [x]) @ s2) = Inr certs" ..
  moreover from bulk_loop_accepts [OF q c, of zs] obtain y where
    y: "code y = JStr c"
    "\<forall>acc. bulk_loop db (q # zs) acc = bulk_loop db zs (acc @ [y])"
    by blast
  ultimately have "bulk_loop db zs (((([] @ s1) @ [x]) @ s2) @ [y]) = Inr certs" by simp
  from bulk_loop_prefix [OF this] obtain s3 where
    certs: "certs = (((([] @ s1) @ [x]) @ s2) @ [y]) @ s3" ..
  have nd: "\<not> distinct (map code certs)"
    unfolding certs using x(1) y(1) by simp
  have ne: "certs \<noteq> []" unfolding certs by simp
  have "\<exists>e. insert_rows db certs = Inl e"
  proof (cases "insert_rows db certs")
    case (Inl e)
    then show ?thesis by (rule exI)
  next
    case (Inr db')
    from insert_rows_Inr [OF this] obtain w where
      st: "list_all2 stored_as certs (map snd w)" and dw: "distinct (codes w)" by blast
    from stored_as_codes [OF st sc] have "map code certs = map JStr (codes w)"
      by (simp add: codes_def comp_def)
    with dw have "distinct (map code certs)" by (simp add: distinct_map inj_on_def)
    with nd show ?thesis by simp
  qed
  then obtain e where e: "insert_rows db certs = Inl e" ..
  from insert_rows_Inl [OF sc e] e have "insert_rows db certs = Inl IntegrityError" by simp
  with add_bulk_items [OF g _ l] ne show ?thesis by (simp add: bulk_save_commit_def)
qed

theorem add_bulk_reported_count_witness:
  "add_bulk_certificates [(1, \<lparr>name = ''A'', code = ''X1'', image_data = ''aGk=''\<rparr>)]
     (JObj [(''certificates'', JArr
        [JObj [(''name'', JStr ''B''), (''code'', JStr ''X2''), (''image_data'', JStr ''eW8='')],
         JObj [(''name'', JStr ''C''), (''code'', JStr ''X1''), (''image_data'', JStr ''b2s='')],
         JObj [(''name'', JStr ''D''), (''code'', JStr ''X3''), (''image_data'', JStr ''b2s='')]])]) =
     ([(1, \<lparr>name = ''A'', code = ''X1'', image_data = ''aGk=''\<rparr>),
       (2, \<lparr>name = ''B'', code = ''X2'', image_data = ''eW8=''\<rparr>),
       (3, \<lparr>name = ''D'', code = ''X3'', image_data = ''b2s=''\<rparr>)],
      Response (JAdded 2) 201) \<and>
   (\<exists>written.
      [(1::nat, \<lparr>name = ''A'', code = ''X1'', image_data = ''aGk=''\<rparr>),
       (2, \<lparr>name = ''B'', code = ''X2'', image_data = ''eW8=''\<rparr>),
       (3, \<lparr>name = ''D'', code = ''X3'', image_data = ''b2s=''\<rparr>)] =
        [(1, \<lparr>name = ''A'', code = ''X1'', image_data = ''aGk=''\<rparr>)] @ written \<and>
      length written = 2 \<and>
      list_all2 stored_as
        [\<lparr>name = JStr ''B'', code = JStr ''X2'', image_data = JStr ''eW8=''\<rparr>,
         \<lparr>name = JStr ''D'', code = JStr ''X3'', image_data = JStr ''b2s=''\<rparr>]
        (map snd written))"
proof -
  let ?db = "[(1::nat, \<lparr>name = ''A'', code = ''X1'', image_data = ''aGk=''\<rparr>)]"
  let ?items =
    "[JObj [(''name'', JStr ''B''), (''code'', JStr ''X2''), (''image_data'', JStr ''eW8='')],
      JObj [(''name'', JStr ''C''), (''code'', JStr ''X1''), (''image_data'', JStr ''b2s='')],
      JObj [(''name'', JStr ''D''), (''code'', JStr ''X3''), (''image_data'', JStr ''b2s='')]]"
  let ?certs =
    "[\<lparr>name = JStr ''B'', code = JStr ''X2'', image_data = JStr ''eW8=''\<rparr>,
      \<lparr>name = JStr ''D'', code = JStr ''X3'', image_data = JStr ''b2s=''\<rparr>]"
  let ?db2 = "[(1::nat, \<lparr>name = ''A'', code = ''X1'', image_data = ''aGk=''\<rparr>),
       (2, \<lparr>name = ''B'', code = ''X2'', image_data = ''eW8=''\<rparr>),
       (3, \<lparr>name = ''D'', code = ''X3'', image_data = ''b2s=''\<rparr>)]"
  have g: "getitem (JObj [(''certificates'', JArr ?items)]) ''certificates'' = Inr (JArr ?items)"
    by simp
  have i: "py_iter (JArr ?items) = Inr ?items" by simp
  have l: "bulk_loop ?db ?items [] = Inr ?certs"
    by (simp add: all_fields_def filter_by_code_first_def new_Certificate_def)
  have ne: "?certs \<noteq> []" by simp
  have b: "bulk_save_commit ?db ?certs = Inr ?db2"
    by (simp add: bulk_save_commit_def insert_row_def codes_def next_id_def)
  note t = add_bulk_reported_count [OF g i l ne]
  from t [THEN conjunct1] b have
    "add_bulk_certificates ?db (JObj [(''certificates'', JArr ?items)]) =
       (?db2, Response (JAdded 2) 201)" by simp
  moreover from t [THEN conjunct2, THEN spec, THEN mp, OF b] have
    "\<exists>written. ?db2 = ?db @ written \<and> length written = 2 \<and>
       list_all2 stored_as ?certs (map snd written)" by simp
  ultimately show ?thesis by (rule conjI)
qed

text \<open>
  As stated for every non-empty accepted list, C3 fails: here the accepted list has two
  certificates, the insert is refused, and the answer carries no count at all.
\<close>

theorem add_bulk_reported_count_counterexample:
  "bulk_loop []
     [JObj [(''name'', JStr ''A''), (''code'', JStr ''1''), (''image_data'', JStr ''aGk='')],
      JObj [(''name'', JStr ''B''), (''code'', JStr ''1''), (''image_data'', JStr ''eW8='')]] [] =
     Inr [\<lparr>name = JStr ''A'', code = JStr ''1'', image_data = JStr ''aGk=''\<rparr>,
          \<lparr>name = JStr ''B'', code = JStr ''1'', image_data = JStr ''eW8=''\<rparr>] \<and>
   add_bulk_certificates []
     (JObj [(''certificates'', JArr
        [JObj [(''name'', JStr ''A''), (''code'', JStr ''1''), (''image_data'', JStr ''aGk='')],
         JObj [(''name'', JStr ''B''), (''code'', JStr ''1''), (''image_data'', JStr ''eW8='')]])]) =
     ([], Uncaught IntegrityError)"
  by (simp add: add_bulk_certificates_def missing_list_def all_fields_def
      filter_by_code_first_def new_Certificate_def bulk_save_commit_def insert_row_def
      codes_def next_id_def)



theorem add_bulk_in_batch_duplicate_witness:
  "bulk_loop []
     [JObj [(''name'', JStr ''A''), (''code'', JStr ''1''), (''image_data'', JStr ''aGk='')],
      JObj [(''name'', JStr ''B''), (''code'', JStr ''1''), (''image_data'', JStr ''eW8='')],
      JObj [(''name'', JStr ''C''), (''code'', JStr ''2''), (''image_data'', JStr ''b2s='')]] [] =
     Inr [\<lparr>name = JStr ''A'', code = JStr ''1'', image_data = JStr ''aGk=''\<rparr>,
          \<lparr>name = JStr ''B'', code = JStr ''1'', image_data = JStr ''eW8=''\<rparr>,
          \<lparr>name = JStr ''C'', code = JStr ''2'', image_data = JStr ''b2s=''\<rparr>] \<and>
   add_bulk_certificates []
     (JObj [(''certificates'', JArr
        [JObj [(''name'', JStr ''A''), (''code'', JStr ''1''), (''image_data'', JStr ''aGk='')],
         JObj [(''name'', JStr ''B''), (''code'', JStr ''1''), (''image_data'', JStr ''eW8='')],
         JObj [(''name'', JStr ''C''), (''code'', JStr ''2''), (''image_data'', JStr ''b2s='')]])]) =
     ([], Uncaught IntegrityError)"
proof (rule conjI)
  show "bulk_loop []
     [JObj [(''name'', JStr ''A''), (''code'', JStr ''1''), (''image_data'', JStr ''aGk='')],
      JObj [(''name'', JStr ''B''), (''code'', JStr ''1''), (''image_data'', JStr ''eW8='')],
      JObj [(''name'', JStr ''C''), (''code'', JStr ''2''), (''image_data'', JStr ''b2s='')]] [] =
     Inr [\<lparr>name = JStr ''A'', code = JStr ''1'', image_data = JStr ''aGk=''\<rparr>,
          \<lparr>name = JStr ''B'', code = JStr ''1'', image_data = JStr ''eW8=''\<rparr>,
          \<lparr>name = JStr ''C'', code = JStr ''2'', image_data = JStr ''b2s=''\<rparr>]"
    by (simp add: all_fields_def filter_by_code_first_def new_Certificate_def)
  show "add_bulk_certificates []
     (JObj [(''certificates'', JArr
        [JObj [(''name'', JStr ''A''), (''code'', JStr ''1''), (''image_data'', JStr ''aGk='')],
         JObj [(''name'', JStr ''B''), (''code'', JStr ''1''), (''image_data'', JStr ''eW8='')],
         JObj [(''name'', JStr ''C''), (''code'', JStr ''2''), (''image_data'', JStr ''b2s='')]])]) =
     ([], Uncaught IntegrityError)"
    by (rule add_bulk_in_batch_duplicate
          [where xs = "[]" and ys = "[]" and c = "''1''"
             and p = "JObj [(''name'', JStr ''A''), (''code'', JStr ''1''), (''image_data'', JStr ''aGk='')]"
             and q = "JObj [(''name'', JStr ''B''), (''code'', JStr ''1''), (''image_data'', JStr ''eW8='')]"
             and zs = "[JObj [(''name'', JStr ''C''), (''code'', JStr ''2''), (''image_data'', JStr ''b2s='')]]"])
       (simp_all add: all_fields_def str_object_def is_JStr_def codes_def)
qed

end
